theory Spec2Isabelle
  imports Complex_Main "HOL-Library.Word"
begin

section \<open>JavaScript strings\<close>

text \<open>
  A JavaScript string is a sequence of 16-bit code units. String literals of the source
  are ASCII and are written through \<open>js\<close>.
\<close>

type_synonym char16 = "16 word"
type_synonym jsstring = "char16 list"

definition js :: "string \<Rightarrow> jsstring" where
  "js s = map (\<lambda>c. of_nat (of_char c)) s"

text \<open>
  \<open>String.prototype.trim\<close> removes WhiteSpace and LineTerminator code points from both
  ends: TAB, VT, FF, SP, NBSP, ZWNBSP, the Unicode space separators (category Zs), and
  LF, CR, LS, PS. All of them are single code units.
\<close>

definition is_ws :: "char16 \<Rightarrow> bool" where
  "is_ws c \<longleftrightarrow>
     c = 0x0009 \<or> c = 0x000A \<or> c = 0x000B \<or> c = 0x000C \<or> c = 0x000D \<or>
     c = 0x0020 \<or> c = 0x00A0 \<or> c = 0x1680 \<or> (0x2000 \<le> c \<and> c \<le> 0x200A) \<or>
     c = 0x2028 \<or> c = 0x2029 \<or> c = 0x202F \<or> c = 0x205F \<or> c = 0x3000 \<or>
     c = 0xFEFF"

definition trim :: "jsstring \<Rightarrow> jsstring" where
  "trim s = rev (dropWhile is_ws (rev (dropWhile is_ws s)))"

text \<open>
  The regular expression \<^verbatim>\<open>/^https?:\/\//i\<close>. Under the flag \<open>i\<close> (without \<open>u\<close>) a
  pattern character and an input code unit match when their canonical forms agree; the
  canonical form is the upper-case mapping, which never sends a code unit outside ASCII
  to one inside it. Every pattern character here is ASCII, so only the ASCII part of the
  mapping decides a match.
\<close>

definition canonicalize :: "char16 \<Rightarrow> char16" where
  "canonicalize c = (if 0x61 \<le> c \<and> c \<le> 0x7A then c - 0x20 else c)"

definition ci_eq :: "char16 \<Rightarrow> char16 \<Rightarrow> bool" where
  "ci_eq p c \<longleftrightarrow> canonicalize c = canonicalize p"

text \<open>Matching a literal piece of the pattern at the front of the input; the rest is returned.\<close>

fun match_lit :: "jsstring \<Rightarrow> jsstring \<Rightarrow> jsstring option" where
  "match_lit [] s = Some s"
| "match_lit (p # ps) [] = None"
| "match_lit (p # ps) (c # cs) = (if ci_eq p c then match_lit ps cs else None)"

text \<open>
  \<open>^\<close> anchors at index 0; \<open>s?\<close> is greedy and the matcher backtracks to the empty
  alternative when the rest fails after an \<open>s\<close>.
\<close>

definition isUrl :: "jsstring \<Rightarrow> bool" where
  "isUrl t =
     (case match_lit (js ''http'') t of
        None \<Rightarrow> False
      | Some r \<Rightarrow>
          (case match_lit (js ''s'') r of
             Some r' \<Rightarrow> match_lit (js ''://'') r' \<noteq> None \<or> match_lit (js ''://'') r \<noteq> None
           | None \<Rightarrow> match_lit (js ''://'') r \<noteq> None))"

text \<open>
  The specification's wording, for comparison with \<open>isUrl\<close>: a string begins with a
  prefix case-insensitively when its first code units equal the prefix after lower-casing
  the ASCII letters of both.
\<close>

definition ascii_lower :: "char16 \<Rightarrow> char16" where
  "ascii_lower c = (if 0x41 \<le> c \<and> c \<le> 0x5A then c + 0x20 else c)"

definition begins_ci :: "jsstring \<Rightarrow> jsstring \<Rightarrow> bool" where
  "begins_ci p s \<longleftrightarrow>
     length p \<le> length s \<and> map ascii_lower (take (length p) s) = map ascii_lower p"

definition begins_http :: "jsstring \<Rightarrow> bool" where
  "begins_http s \<longleftrightarrow> begins_ci (js ''http://'') s \<or> begins_ci (js ''https://'') s"

section \<open>The analysis request\<close>

record request =
  job_text :: jsstring
  job_url :: jsstring
  company_name :: jsstring
  analysis_type :: jsstring
  job_title :: jsstring

text \<open>The payload object of \<open>handleAnalyze\<close>, from the input and the selected analysis type.\<close>

definition payload :: "jsstring \<Rightarrow> jsstring \<Rightarrow> request" where
  "payload inp atype =
     (let is_url = isUrl (trim inp) in
      \<lparr> job_text = (if is_url then [] else trim inp),
        job_url = (if is_url then trim inp else []),
        company_name = [],
        analysis_type = atype,
        job_title = [] \<rparr>)"

section \<open>JavaScript values\<close>

text \<open>
  Numbers: a finite double is the real number it denotes; \<open>Math.min\<close> and \<open>Math.max\<close>
  return one of their arguments, so no rounding occurs. \<open>JSON.parse\<close> yields finite
  numbers and, on overflow, the infinities; it never yields \<open>NaN\<close>.
\<close>

datatype jsnum = NegInf | Fin real | PosInf | NaN

datatype jsval =
    Undefined
  | Null
  | Bool bool
  | Num jsnum
  | Str jsstring
  | Arr "jsval list"
  | Obj "(jsstring \<times> jsval) list"

text \<open>ToBoolean.\<close>

fun truthy :: "jsval \<Rightarrow> bool" where
  "truthy Undefined = False"
| "truthy Null = False"
| "truthy (Bool b) = b"
| "truthy (Num x) = (x \<noteq> Fin 0 \<and> x \<noteq> NaN)"
| "truthy (Str s) = (s \<noteq> [])"
| "truthy (Arr xs) = True"
| "truthy (Obj kvs) = True"

text \<open>
  Reading a property \<open>v.k\<close> of a value that is neither \<open>null\<close> nor \<open>undefined\<close>, for the
  keys this program reads (\<open>error\<close>, \<open>analysis\<close>, \<open>red_flags\<close>, \<open>risk_score\<close> and the
  other fields of a response): an object gives its own property (a parsed object has one value per key), every other value gives
  \<open>undefined\<close> since no prototype defines these keys. On \<open>null\<close> and \<open>undefined\<close> the read
  throws; callers handle that case before calling \<open>jsprop\<close>.
\<close>

fun jsprop :: "jsval \<Rightarrow> jsstring \<Rightarrow> jsval" where
  "jsprop (Obj kvs) k = (case map_of kvs k of Some v \<Rightarrow> v | None \<Rightarrow> Undefined)"
| "jsprop v k = Undefined"

text \<open>\<^verbatim>\<open>typeof v === 'object'\<close>, which holds of \<open>null\<close>, arrays and objects.\<close>

fun is_object :: "jsval \<Rightarrow> bool" where
  "is_object Null = True"
| "is_object (Arr xs) = True"
| "is_object (Obj kvs) = True"
| "is_object v = False"

text \<open>The entries of an array value; a value that is not an array has none.\<close>

definition array_entries :: "jsval \<Rightarrow> jsval list" where
  "array_entries v = (case v of Arr xs \<Rightarrow> xs | _ \<Rightarrow> [])"

definition error_object :: "jsval \<Rightarrow> jsval" where
  "error_object v = Obj [(js ''error'', v)]"

section \<open>The state of \<open>MainScreen\<close>\<close>

text \<open>
  The eight \<open>useState\<close> cells of the component, with the network beside them: \<open>sent\<close>
  records every \<open>fetch("/api/analyze")\<close> call issued so far, in order, and \<open>inflight\<close>
  the calls whose promise has not settled yet.
\<close>

record state =
  showSignUp :: bool
  showLogin :: bool
  userName :: jsstring
  showProfile :: bool
  input :: jsstring
  analysisType :: jsstring
  result :: jsval
  loading :: bool
  sent :: "request list"
  inflight :: "request list"

definition init :: state where
  "init = \<lparr> showSignUp = False, showLogin = False, userName = [], showProfile = False,
            input = [], analysisType = js ''quick'', result = Null, loading = False,
            sent = [], inflight = [] \<rparr>"

definition handleAuthSuccess :: "jsstring \<Rightarrow> state \<Rightarrow> state" where
  "handleAuthSuccess name s = s\<lparr>userName := name, showSignUp := False, showLogin := False\<rparr>"

section \<open>\<open>handleAnalyze\<close>\<close>

text \<open>
  The handler runs in two parts. The first part runs inside the submit event, up to the
  call of \<open>fetch\<close>: it clears the result, validates the input and either stores the
  validation message and returns, or builds the payload, sets \<open>loading\<close> and issues the
  request.
\<close>

definition validation_message :: jsstring where
  "validation_message = js ''Please enter a job posting URL or description.''"

definition handleAnalyze_submit :: "state \<Rightarrow> state" where
  "handleAnalyze_submit s =
     (let s1 = s\<lparr>result := Null\<rparr> in
      if trim (input s) = [] then s1\<lparr>result := error_object (Str validation_message)\<rparr>
      else
        (let p = payload (input s) (analysisType s) in
         s1\<lparr>loading := True, sent := sent s1 @ [p], inflight := inflight s1 @ [p]\<rparr>))"

text \<open>
  The second part runs when the awaited calls settle. \<open>Rejects m\<close>: \<open>fetch\<close> or
  \<open>response.json()\<close> rejects with an error whose \<open>message\<close> is \<open>m\<close>. \<open>Resolves ok data\<close>:
  both resolve, \<open>response.ok\<close> is \<open>ok\<close> and the parsed body is \<open>data\<close>.
  Reading \<open>data.error\<close> of a \<open>null\<close> body throws a TypeError inside the \<open>try\<close> block; its
  message is the engine's and is the parameter \<open>tmsg\<close>. The \<open>finally\<close> block resets
  \<open>loading\<close> on every path.
\<close>

datatype outcome = Rejects jsstring | Resolves bool jsval

definition failed_message :: jsstring where
  "failed_message = js ''Failed to analyze. Please try again.''"

definition handleAnalyze_settle :: "jsstring \<Rightarrow> outcome \<Rightarrow> state \<Rightarrow> state" where
  "handleAnalyze_settle tmsg out s =
     (case out of
        Rejects m \<Rightarrow> s\<lparr>result := error_object (Str m), loading := False\<rparr>
      | Resolves ok data \<Rightarrow>
          (if data = Null \<or> data = Undefined then
             s\<lparr>result := error_object (Str tmsg), loading := False\<rparr>
           else if \<not> ok \<or> truthy (jsprop data (js ''error'')) then
             s\<lparr>result := error_object
                    (if truthy (jsprop data (js ''error'')) then jsprop data (js ''error'')
                     else Str failed_message),
               loading := False\<rparr>
           else s\<lparr>result := data, loading := False\<rparr>))"

section \<open>Rendering\<close>

datatype screen = SignUpPage | LoginScreen | ProfilePage | MainPage

text \<open>The three early returns of \<open>MainScreen\<close>, in the order the source checks them.\<close>

definition screen_of :: "state \<Rightarrow> screen" where
  "screen_of s =
     (if showSignUp s then SignUpPage
      else if showLogin s then LoginScreen
      else if showProfile s then ProfilePage
      else MainPage)"

text \<open>
  The conditional chain below the form selects the error panel with the error value, the
  result panel, the raw panel (a string or the stringified value), or nothing.
  \<open>result_panel\<close> is the branch of the chain that is taken; whether rendering that branch
  succeeds is \<open>render_result\<close> below.
\<close>

datatype panel = NoPanel | ErrorPanel jsval | ResultPanel jsval | RawPanel jsval

definition result_panel :: "jsval \<Rightarrow> panel" where
  "result_panel r =
     (if truthy r \<and> truthy (jsprop r (js ''error'')) then ErrorPanel (jsprop r (js ''error''))
      else if truthy r \<and> is_object r then ResultPanel r
      else if truthy r then RawPanel r
      else NoPanel)"

text \<open>The red-flag grid: \<open>slice(0, 8)\<close> of the array, then the padding loop.\<close>

definition no_flag :: jsval where
  "no_flag = Str (js ''No flag'')"

function pad_flags :: "jsval list \<Rightarrow> jsval list" where
  "pad_flags flags = (if length flags < 8 then pad_flags (flags @ [no_flag]) else flags)"
  by pat_completeness auto
termination
  by (relation "measure (\<lambda>flags. 8 - length flags)") auto

declare pad_flags.simps [simp del]

definition red_flag_tiles :: "jsval \<Rightarrow> jsval list" where
  "red_flag_tiles analysis =
     pad_flags (case jsprop analysis (js ''red_flags'') of Arr xs \<Rightarrow> take 8 xs | _ \<Rightarrow> [])"

text \<open>The grid is rendered inside the result panel when \<open>result.analysis\<close> is truthy.\<close>

definition red_flags_section :: "jsval \<Rightarrow> jsval list option" where
  "red_flags_section r =
     (if truthy (jsprop r (js ''analysis''))
      then Some (red_flag_tiles (jsprop r (js ''analysis'')))
      else None)"

text \<open>
  Rendering the selected branch places values of the result as children of elements. React
  renders a string or a number as text, renders nothing for \<open>undefined\<close>, \<open>null\<close> and the
  booleans, renders the entries of an array in turn, and throws on a plain object ("Objects
  are not valid as a React child"); no error boundary is mounted, so nothing is shown then.
\<close>

fun react_child :: "jsval \<Rightarrow> bool" where
  "react_child (Obj kvs) = False"
| "react_child (Arr xs) = list_all react_child xs"
| "react_child v = True"

text \<open>
  The values each branch places as children. The error panel: \<open>result.error\<close>. The result
  panel: \<open>risk_score\<close> and \<open>risk_level\<close> in the heading, \<open>risk_score\<close> in the marker,
  \<open>verdict\<close>, and, when \<open>analysis\<close> is truthy, the tiles and \<open>analysis.llm_analysis\<close>. The
  guards \<open>result.analysis &&\<close> and \<open>result.auto_reply &&\<close> place their own value when it
  is falsy, and a falsy value is never an object. The raw panel places a string.
\<close>

definition panel_children :: "panel \<Rightarrow> jsval list" where
  "panel_children p =
     (case p of
        NoPanel \<Rightarrow> []
      | ErrorPanel e \<Rightarrow> [e]
      | ResultPanel r \<Rightarrow>
          [jsprop r (js ''risk_score''), jsprop r (js ''risk_level''),
           jsprop r (js ''risk_score''), jsprop r (js ''verdict'')] @
          (case red_flags_section r of
             None \<Rightarrow> []
           | Some tiles \<Rightarrow> tiles @ [jsprop (jsprop r (js ''analysis'')) (js ''llm_analysis'')])
      | RawPanel r \<Rightarrow> [])"

datatype rendering = Shows panel | Throws

definition render_result :: "jsval \<Rightarrow> rendering" where
  "render_result r =
     (if list_all react_child (panel_children (result_panel r)) then Shows (result_panel r)
      else Throws)"

text \<open>
  The risk bar: the fill width and the marker position are both the template
  \<^verbatim>\<open>${Math.max(0, Math.min(100, result.risk_score))}%\<close>. \<open>Math.min\<close> and \<open>Math.max\<close>
  give \<open>NaN\<close> when an argument is \<open>NaN\<close>.
\<close>

fun js_min :: "jsnum \<Rightarrow> jsnum \<Rightarrow> jsnum" where
  "js_min NaN y = NaN"
| "js_min x NaN = NaN"
| "js_min NegInf y = NegInf"
| "js_min x NegInf = NegInf"
| "js_min PosInf y = y"
| "js_min x PosInf = x"
| "js_min (Fin a) (Fin b) = Fin (min a b)"

fun js_max :: "jsnum \<Rightarrow> jsnum \<Rightarrow> jsnum" where
  "js_max NaN y = NaN"
| "js_max x NaN = NaN"
| "js_max PosInf y = PosInf"
| "js_max x PosInf = PosInf"
| "js_max NegInf y = y"
| "js_max x NegInf = x"
| "js_max (Fin a) (Fin b) = Fin (max a b)"

text \<open>
  ToNumber on the arguments of \<open>Math.min\<close>. Strings, arrays and objects convert through
  the numeric-string grammar, which is not part of this model: they give \<open>None\<close>.
\<close>

fun to_number :: "jsval \<Rightarrow> jsnum option" where
  "to_number Undefined = Some NaN"
| "to_number Null = Some (Fin 0)"
| "to_number (Bool b) = Some (Fin (if b then 1 else 0))"
| "to_number (Num x) = Some x"
| "to_number v = None"

definition clamp_percent :: "jsnum \<Rightarrow> jsnum" where
  "clamp_percent x = js_max (Fin 0) (js_min (Fin 100) x)"

definition bar_width :: "jsval \<Rightarrow> jsnum option" where
  "bar_width r = map_option clamp_percent (to_number (jsprop r (js ''risk_score'')))"

definition marker_left :: "jsval \<Rightarrow> jsnum option" where
  "marker_left r = map_option clamp_percent (to_number (jsprop r (js ''risk_score'')))"

text \<open>The form controls: their \<open>disabled\<close> attributes and the log-in notice.\<close>

definition textarea_disabled :: "state \<Rightarrow> bool" where
  "textarea_disabled s \<longleftrightarrow> userName s = []"

definition quick_radio_disabled :: "state \<Rightarrow> bool" where
  "quick_radio_disabled s \<longleftrightarrow> userName s = []"

definition detailed_radio_disabled :: "state \<Rightarrow> bool" where
  "detailed_radio_disabled s \<longleftrightarrow> userName s = []"

definition submit_disabled :: "state \<Rightarrow> bool" where
  "submit_disabled s \<longleftrightarrow> loading s \<or> userName s = []"

definition login_notice :: "state \<Rightarrow> jsstring option" where
  "login_notice s =
     (if userName s = [] then Some (js ''Please log in to analyze job postings.'') else None)"

section \<open>Events\<close>

text \<open>
  What can happen to the mounted component. A user event reaches its handler only when
  the control is rendered on the current screen and is not disabled. The sign-up and log-in
  screens are given \<open>onBack\<close> and \<open>onAuthSuccess\<close>, the profile screen \<open>onBack\<close>; the events
  \<open>SignUpBack\<close>, \<open>LoginBack\<close>, \<open>ProfileBack\<close> and \<open>AuthSuccess name\<close> are the calls of these
  callbacks by the screen that is shown. \<open>Settle i out\<close> settles the \<open>i\<close>-th request in flight
  with outcome \<open>out\<close>; the continuation of \<open>handleAnalyze\<close> runs whatever screen is shown.
\<close>

datatype event =
    ClickSignUp
  | ClickLogin
  | ClickWelcome
  | SignUpBack
  | LoginBack
  | ProfileBack
  | AuthSuccess jsstring
  | ChangeInput jsstring
  | ChooseQuick
  | ChooseDetailed
  | ClickSubmit
  | Settle nat outcome

fun step :: "jsstring \<Rightarrow> event \<Rightarrow> state \<Rightarrow> state" where
  "step tmsg ClickSignUp s =
     (if screen_of s = MainPage \<and> userName s = [] then s\<lparr>showSignUp := True\<rparr> else s)"
| "step tmsg ClickLogin s =
     (if screen_of s = MainPage \<and> userName s = [] then s\<lparr>showLogin := True\<rparr> else s)"
| "step tmsg ClickWelcome s =
     (if screen_of s = MainPage \<and> userName s \<noteq> [] then s\<lparr>showProfile := True\<rparr> else s)"
| "step tmsg SignUpBack s =
     (if screen_of s = SignUpPage then s\<lparr>showSignUp := False\<rparr> else s)"
| "step tmsg LoginBack s =
     (if screen_of s = LoginScreen then s\<lparr>showLogin := False\<rparr> else s)"
| "step tmsg ProfileBack s =
     (if screen_of s = ProfilePage then s\<lparr>showProfile := False\<rparr> else s)"
| "step tmsg (AuthSuccess name) s =
     (if screen_of s = SignUpPage \<or> screen_of s = LoginScreen then handleAuthSuccess name s
      else s)"
| "step tmsg (ChangeInput v) s =
     (if screen_of s = MainPage \<and> \<not> textarea_disabled s then s\<lparr>input := v\<rparr> else s)"
| "step tmsg ChooseQuick s =
     (if screen_of s = MainPage \<and> \<not> quick_radio_disabled s \<and> userName s \<noteq> []
      then s\<lparr>analysisType := js ''quick''\<rparr> else s)"
| "step tmsg ChooseDetailed s =
     (if screen_of s = MainPage \<and> \<not> detailed_radio_disabled s \<and> userName s \<noteq> []
      then s\<lparr>analysisType := js ''detailed''\<rparr> else s)"
| "step tmsg ClickSubmit s =
     (if screen_of s = MainPage \<and> \<not> submit_disabled s then handleAnalyze_submit s else s)"
| "step tmsg (Settle i out) s =
     (if i < length (inflight s)
      then (handleAnalyze_settle tmsg out s)
             \<lparr>inflight := take i (inflight s) @ drop (Suc i) (inflight s)\<rparr>
      else s)"

fun run :: "jsstring \<Rightarrow> event list \<Rightarrow> state \<Rightarrow> state" where
  "run tmsg [] s = s"
| "run tmsg (e # es) s = run tmsg es (step tmsg e s)"

fun is_auth :: "event \<Rightarrow> bool" where
  "is_auth (AuthSuccess name) = True"
| "is_auth e = False"

fun is_selector :: "event \<Rightarrow> bool" where
  "is_selector ChooseQuick = True"
| "is_selector ChooseDetailed = True"
| "is_selector e = False"

section \<open>Invariants of the event loop\<close>

text \<open>State predicates that every event preserves; the lemmas below establish them.\<close>

definition type_inv :: "state \<Rightarrow> bool" where
  "type_inv s \<longleftrightarrow>
     (analysisType s = js ''quick'' \<or> analysisType s = js ''detailed'') \<and>
     (\<forall>r\<in>set (sent s). analysis_type r = js ''quick'' \<or> analysis_type r = js ''detailed'')"

definition quick_inv :: "state \<Rightarrow> bool" where
  "quick_inv s \<longleftrightarrow>
     analysisType s = js ''quick'' \<and> (\<forall>r\<in>set (sent s). analysis_type r = js ''quick'')"

definition reserved_inv :: "state \<Rightarrow> bool" where
  "reserved_inv s \<longleftrightarrow> (\<forall>r\<in>set (sent s). company_name r = [] \<and> job_title r = [])"

definition flight_inv :: "state \<Rightarrow> bool" where
  "flight_inv s \<longleftrightarrow> length (inflight s) \<le> 1 \<and> (loading s \<longleftrightarrow> inflight s \<noteq> [])"

definition auth_inv :: "state \<Rightarrow> bool" where
  "auth_inv s \<longleftrightarrow>
     (userName s \<noteq> [] \<longrightarrow> \<not> showSignUp s \<and> \<not> showLogin s) \<and>
     (sent s \<noteq> [] \<longrightarrow> userName s \<noteq> [])"

section \<open>Trimming and the URL test\<close>

text \<open>String literals: \<open>js\<close> is injective, so literals compare as their ASCII text does.\<close>

lemma js_eq_Nil: "js s = [] \<longleftrightarrow> s = []"
  by (simp add: js_def)

lemma unit_of_char: "unat (of_nat (of_char c) :: char16) = of_char c"
proof -
  have "(of_char c :: nat) < 256" by (rule nat_of_char_less_256)
  also have "(256 :: nat) < 2 ^ LENGTH(16)" by simp
  finally have "(of_char c :: nat) < 2 ^ LENGTH(16)" .
  then show ?thesis by (simp only: unat_of_nat mod_less)
qed

lemma js_eq_iff: "js a = js b \<longleftrightarrow> a = b"
proof -
  have "inj (\<lambda>c. (of_nat (of_char c) :: char16))"
  proof (rule injI)
    fix x y :: char
    assume "(of_nat (of_char x) :: char16) = of_nat (of_char y)"
    then have "unat (of_nat (of_char x) :: char16) = unat (of_nat (of_char y) :: char16)"
      by simp
    then have "(of_char x :: nat) = of_char y" by (simp only: unit_of_char)
    then show "x = y" by simp
  qed
  then show ?thesis by (simp add: js_def)
qed

lemma trim_empty_iff: "trim s = [] \<longleftrightarrow> (\<forall>c\<in>set s. is_ws c)"
proof -
  have "trim s = [] \<longleftrightarrow> (\<forall>c\<in>set (dropWhile is_ws s). is_ws c)"
    by (simp add: trim_def)
  also have "\<dots> \<longleftrightarrow> dropWhile is_ws s = []"
  proof
    assume a: "\<forall>c\<in>set (dropWhile is_ws s). is_ws c"
    show "dropWhile is_ws s = []"
    proof (rule ccontr)
      assume n: "dropWhile is_ws s \<noteq> []"
      then have "\<not> is_ws (hd (dropWhile is_ws s))" by (rule hd_dropWhile)
      moreover from n have "hd (dropWhile is_ws s) \<in> set (dropWhile is_ws s)" by simp
      ultimately show False using a by blast
    qed
  next
    assume e: "dropWhile is_ws s = []"
    show "\<forall>c\<in>set (dropWhile is_ws s). is_ws c" unfolding e by simp
  qed
  also have "\<dots> \<longleftrightarrow> (\<forall>c\<in>set s. is_ws c)"
    by simp
  finally show ?thesis .
qed

lemma trim_keeps_prefix:
  assumes "a \<noteq> []" "\<not> is_ws (hd a)" "\<not> is_ws (last a)"
  shows "\<exists>c. trim (a @ b) = a @ c"
proof -
  from assms have d: "dropWhile is_ws (a @ b) = a @ b"
    by (cases a) auto
  have l: "dropWhile is_ws (rev a) = rev a"
    using assms by (cases "rev a") (auto simp: last_rev hd_rev)
  show ?thesis
  proof (cases "\<forall>x\<in>set (rev b). is_ws x")
    case True
    then have "dropWhile is_ws (rev b @ rev a) = rev a"
      using l by (simp add: dropWhile_append)
    then show ?thesis by (simp add: trim_def d)
  next
    case False
    then have "dropWhile is_ws (rev b @ rev a) = dropWhile is_ws (rev b) @ rev a"
      by (auto simp: dropWhile_append)
    then show ?thesis by (simp add: trim_def d)
  qed
qed

lemma ci_eq_lower: "ci_eq p c \<longleftrightarrow> ascii_lower c = ascii_lower p"
  unfolding ci_eq_def canonicalize_def ascii_lower_def
  by (auto simp: word_le_nat_alt unat_sub unat_word_ariths word_unat_eq_iff)


lemma match_lit_begins: "match_lit p s \<noteq> None \<longleftrightarrow> begins_ci p s"
  by (induction p s rule: match_lit.induct) (auto simp: begins_ci_def ci_eq_lower)

lemma match_lit_append:
  "match_lit (p @ q) s = (case match_lit p s of None \<Rightarrow> None | Some r \<Rightarrow> match_lit q r)"
  by (induction p s rule: match_lit.induct) auto

lemma js_append: "js (a @ b) = js a @ js b"
  by (simp add: js_def)

lemma isUrl_match:
  "isUrl t \<longleftrightarrow> match_lit (js ''http://'') t \<noteq> None \<or> match_lit (js ''https://'') t \<noteq> None"
proof -
  have a: "js ''http://'' = js ''http'' @ js ''://''"
    and b: "js ''https://'' = js ''http'' @ (js ''s'' @ js ''://'')"
    by (simp_all add: js_def)
  show ?thesis
    unfolding a b match_lit_append isUrl_def
    by (auto split: option.splits)
qed

lemma isUrl_begins_http: "isUrl t \<longleftrightarrow> begins_http t"
  unfolding isUrl_match match_lit_begins begins_http_def ..

lemma begins_ci_split:
  assumes "begins_ci p s"
  shows "s = take (length p) s @ drop (length p) s"
    and "map ascii_lower (take (length p) s) = map ascii_lower p"
    and "length (take (length p) s) = length p"
  using assms by (auto simp: begins_ci_def)

lemma ascii_lower_ws: "is_ws c \<Longrightarrow> ascii_lower c = c"
  unfolding is_ws_def ascii_lower_def by (auto simp: word_le_nat_alt)

lemma begins_ci_trim:
  assumes b: "begins_ci p s" and p: "p \<noteq> []"
    and h: "\<not> is_ws (ascii_lower (hd p))" and l: "\<not> is_ws (ascii_lower (last p))"
  shows "begins_ci p (trim s)"
proof -
  let ?a = "take (length p) s"
  from b have len: "length ?a = length p" and m: "map ascii_lower ?a = map ascii_lower p"
    by (auto simp: begins_ci_def)
  from len p have ne: "?a \<noteq> []" by auto
  have "ascii_lower (hd ?a) = ascii_lower (hd p)"
    using m ne p by (metis hd_map)
  then have nh: "\<not> is_ws (hd ?a)" using h ascii_lower_ws by metis
  have "ascii_lower (last ?a) = ascii_lower (last p)"
    using m ne p by (metis last_map)
  then have nl: "\<not> is_ws (last ?a)" using l ascii_lower_ws by metis
  from trim_keeps_prefix [OF ne nh nl, of "drop (length p) s"]
  obtain c where c: "trim s = ?a @ c" by auto
  show ?thesis
    unfolding c begins_ci_def using len m by simp
qed

lemma begins_http_trim: "begins_http s \<Longrightarrow> begins_http (trim s)"
  unfolding begins_http_def
  by (auto intro!: begins_ci_trim simp: js_def is_ws_def ascii_lower_def)

lemma begins_ci_nonempty: "begins_ci p s \<Longrightarrow> p \<noteq> [] \<Longrightarrow> s \<noteq> []"
  by (auto simp: begins_ci_def)

lemma begins_http_nonempty: "begins_http s \<Longrightarrow> s \<noteq> []"
  unfolding begins_http_def by (auto dest!: begins_ci_nonempty simp: js_def)

section \<open>The handler and the panels\<close>

lemma payload_url:
  "begins_http (trim inp) \<Longrightarrow>
     payload inp t = \<lparr> job_text = [], job_url = trim inp, company_name = [],
                       analysis_type = t, job_title = [] \<rparr>"
  by (simp add: payload_def isUrl_begins_http)

lemma payload_text:
  "\<not> begins_http (trim inp) \<Longrightarrow>
     payload inp t = \<lparr> job_text = trim inp, job_url = [], company_name = [],
                       analysis_type = t, job_title = [] \<rparr>"
  by (simp add: payload_def isUrl_begins_http)

lemma submit_valid:
  "trim (input s) \<noteq> [] \<Longrightarrow>
     handleAnalyze_submit s =
       s\<lparr>result := Null, loading := True,
         sent := sent s @ [payload (input s) (analysisType s)],
         inflight := inflight s @ [payload (input s) (analysisType s)]\<rparr>"
  by (simp add: handleAnalyze_submit_def Let_def)

lemma submit_invalid:
  "trim (input s) = [] \<Longrightarrow>
     handleAnalyze_submit s = s\<lparr>result := error_object (Str validation_message)\<rparr>"
  by (simp add: handleAnalyze_submit_def Let_def)

lemma pad_flags_replicate: "pad_flags flags = flags @ replicate (8 - length flags) no_flag"
proof (induction flags rule: pad_flags.induct)
  case (1 flags)
  show ?case
  proof (cases "length flags < 8")
    case True
    then have "8 - length flags = Suc (8 - length (flags @ [no_flag]))" by simp
    then have "flags @ replicate (8 - length flags) no_flag
                 = (flags @ [no_flag]) @ replicate (8 - length (flags @ [no_flag])) no_flag"
      by (simp only: replicate_Suc append_Cons append_Nil append_assoc)
    with True "1.IH" show ?thesis by (subst pad_flags.simps) simp
  next
    case False
    then show ?thesis by (subst pad_flags.simps) simp
  qed
qed

lemma red_flag_tiles_eq:
  "red_flag_tiles a =
     take 8 (array_entries (jsprop a (js ''red_flags''))) @
     replicate (8 - min (length (array_entries (jsprop a (js ''red_flags'')))) 8) no_flag"
proof -
  have "red_flag_tiles a = pad_flags (take 8 (array_entries (jsprop a (js ''red_flags''))))"
    by (cases "jsprop a (js ''red_flags'')") (simp_all add: red_flag_tiles_def array_entries_def)
  then show ?thesis
    by (simp only: pad_flags_replicate length_take)
qed

lemma error_object_panel: "truthy e \<Longrightarrow> result_panel (error_object e) = ErrorPanel e"
  by (simp add: result_panel_def error_object_def)

lemma error_object_panel_falsy: "\<not> truthy e \<Longrightarrow> result_panel (error_object e) = ResultPanel (error_object e)"
  by (simp add: result_panel_def error_object_def)

lemma clamp_percent_cases:
  "clamp_percent (Fin v) = Fin (max 0 (min 100 v))"
  "clamp_percent PosInf = Fin 100"
  "clamp_percent NegInf = Fin 0"
  "clamp_percent NaN = NaN"
  by (simp_all add: clamp_percent_def)

lemma clamp_percent_range: "x \<noteq> NaN \<Longrightarrow> \<exists>p. clamp_percent x = Fin p \<and> 0 \<le> p \<and> p \<le> 100"
  by (cases x) (auto simp: clamp_percent_cases)

lemma settle_result:
  "result (handleAnalyze_settle tmsg out s) =
     (case out of
        Rejects m \<Rightarrow> error_object (Str m)
      | Resolves ok data \<Rightarrow>
          if data = Null \<or> data = Undefined then error_object (Str tmsg)
          else if truthy (jsprop data (js ''error'')) then error_object (jsprop data (js ''error''))
          else if \<not> ok then error_object (Str failed_message)
          else data)"
  by (simp add: handleAnalyze_settle_def split: outcome.splits)

lemma settle_loading: "loading (handleAnalyze_settle tmsg out s) = False"
  by (simp add: handleAnalyze_settle_def split: outcome.splits)

lemma falsy_error_panel: "\<not> truthy (jsprop d (js ''error'')) \<Longrightarrow> result_panel d \<noteq> ErrorPanel e"
  by (simp add: result_panel_def)

lemma failed_message_truthy: "truthy (Str failed_message)"
  by (simp add: failed_message_def js_def)

text \<open>Rendering the stored result.\<close>

lemma render_error_string:
  "m \<noteq> [] \<Longrightarrow> render_result (Obj [(js ''error'', Str m)]) = Shows (ErrorPanel (Str m))"
  by (simp add: render_result_def result_panel_def panel_children_def)

lemma not_error_shown:
  "\<not> truthy (jsprop d (js ''error'')) \<Longrightarrow> render_result d \<noteq> Shows (ErrorPanel e)"
  by (simp add: render_result_def falsy_error_panel)

lemma falsy_not_error_object:
  "\<not> truthy (jsprop d (js ''error'')) \<Longrightarrow> m \<noteq> [] \<Longrightarrow> d \<noteq> Obj [(js ''error'', Str m)]"
  by auto

section \<open>The event loop\<close>

lemma run_invariant:
  assumes "P s" and "\<And>e s. P s \<Longrightarrow> P (step tmsg e s)"
  shows "P (run tmsg evs s)"
  using assms(1)
proof (induction evs arbitrary: s)
  case Nil
  then show ?case by simp
next
  case (Cons e es)
  then show ?case by (simp add: assms(2))
qed

lemma settle_sent: "sent (handleAnalyze_settle tmsg out s) = sent s"
  by (simp add: handleAnalyze_settle_def split: outcome.splits)

lemma settle_fields:
  "showSignUp (handleAnalyze_settle tmsg out s) = showSignUp s"
  "showLogin (handleAnalyze_settle tmsg out s) = showLogin s"
  "showProfile (handleAnalyze_settle tmsg out s) = showProfile s"
  "userName (handleAnalyze_settle tmsg out s) = userName s"
  "input (handleAnalyze_settle tmsg out s) = input s"
  "analysisType (handleAnalyze_settle tmsg out s) = analysisType s"
  "inflight (handleAnalyze_settle tmsg out s) = inflight s"
  by (simp_all add: handleAnalyze_settle_def split: outcome.splits)

lemma submit_fields:
  "showSignUp (handleAnalyze_submit s) = showSignUp s"
  "showLogin (handleAnalyze_submit s) = showLogin s"
  "showProfile (handleAnalyze_submit s) = showProfile s"
  "userName (handleAnalyze_submit s) = userName s"
  "input (handleAnalyze_submit s) = input s"
  "analysisType (handleAnalyze_submit s) = analysisType s"
  by (simp_all add: handleAnalyze_submit_def Let_def)

lemma submit_sent:
  "sent (handleAnalyze_submit s) =
     (if trim (input s) = [] then sent s else sent s @ [payload (input s) (analysisType s)])"
  by (simp add: handleAnalyze_submit_def Let_def)

lemma submit_inflight:
  "inflight (handleAnalyze_submit s) =
     (if trim (input s) = [] then inflight s
      else inflight s @ [payload (input s) (analysisType s)])"
  by (simp add: handleAnalyze_submit_def Let_def)

lemma submit_loading:
  "loading (handleAnalyze_submit s) = (if trim (input s) = [] then loading s else True)"
  by (simp add: handleAnalyze_submit_def Let_def)

text \<open>Every step leaves the request log alone or appends the payload of the current state.\<close>

lemma step_sent:
  "sent (step tmsg e s) = sent s \<or>
   (e = ClickSubmit \<and> userName s \<noteq> [] \<and> \<not> loading s \<and> trim (input s) \<noteq> [] \<and>
    sent (step tmsg e s) = sent s @ [payload (input s) (analysisType s)])"
  by (cases e)
     (simp_all add: settle_sent submit_sent handleAuthSuccess_def submit_disabled_def)

lemma step_analysisType:
  "analysisType (step tmsg e s) = analysisType s \<or>
   (e = ChooseQuick \<and> analysisType (step tmsg e s) = js ''quick'') \<or>
   (e = ChooseDetailed \<and> analysisType (step tmsg e s) = js ''detailed'')"
  by (cases e) (simp_all add: settle_fields submit_fields handleAuthSuccess_def)

lemma payload_fields:
  "analysis_type (payload i t) = t" "company_name (payload i t) = []" "job_title (payload i t) = []"
  by (simp_all add: payload_def Let_def)

lemma type_inv_step: "type_inv s \<Longrightarrow> type_inv (step tmsg e s)"
  using step_sent [of tmsg e s] step_analysisType [of tmsg e s]
  unfolding type_inv_def by (auto simp: payload_fields)

lemma type_inv_init: "type_inv init"
  by (simp add: type_inv_def init_def)

lemma type_inv_run: "type_inv (run tmsg evs init)"
proof (rule run_invariant [where P = type_inv])
  show "type_inv init" by (rule type_inv_init)
  show "\<And>e s. type_inv s \<Longrightarrow> type_inv (step tmsg e s)" by (rule type_inv_step)
qed

lemma quick_inv_step: "quick_inv s \<Longrightarrow> \<not> is_selector e \<Longrightarrow> quick_inv (step tmsg e s)"
  using step_sent [of tmsg e s] step_analysisType [of tmsg e s]
  unfolding quick_inv_def by (auto simp: payload_fields)

lemma quick_inv_run:
  "quick_inv s \<Longrightarrow> \<forall>e\<in>set evs. \<not> is_selector e \<Longrightarrow> quick_inv (run tmsg evs s)"
  by (induction evs arbitrary: s) (simp_all add: quick_inv_step)

lemma reserved_inv_step: "reserved_inv s \<Longrightarrow> reserved_inv (step tmsg e s)"
  using step_sent [of tmsg e s]
  unfolding reserved_inv_def by (auto simp: payload_fields)

lemma reserved_inv_run: "reserved_inv (run tmsg evs init)"
proof (rule run_invariant [where P = reserved_inv])
  show "reserved_inv init" by (simp add: reserved_inv_def init_def)
  show "\<And>e s. reserved_inv s \<Longrightarrow> reserved_inv (step tmsg e s)" by (rule reserved_inv_step)
qed

lemma screen_of_iff:
  "screen_of s = SignUpPage \<longleftrightarrow> showSignUp s"
  "screen_of s = LoginScreen \<longleftrightarrow> \<not> showSignUp s \<and> showLogin s"
  "screen_of s = ProfilePage \<longleftrightarrow> \<not> showSignUp s \<and> \<not> showLogin s \<and> showProfile s"
  "screen_of s = MainPage \<longleftrightarrow> \<not> showSignUp s \<and> \<not> showLogin s \<and> \<not> showProfile s"
  by (simp_all add: screen_of_def)

lemma settle_one:
  assumes "length xs \<le> 1" and "i < length xs"
  shows "take i xs @ drop (Suc i) xs = []"
proof -
  from assms have "i = 0" and "length xs = 1" by auto
  then show ?thesis by (cases xs) auto
qed

lemma flight_inv_step: "flight_inv s \<Longrightarrow> flight_inv (step tmsg e s)"
proof (cases e)
  case ClickSubmit
  assume "flight_inv s"
  then show ?thesis using ClickSubmit
    by (simp add: flight_inv_def submit_disabled_def submit_inflight submit_loading)
next
  case (Settle i out)
  assume "flight_inv s"
  then show ?thesis using Settle
    by (simp add: flight_inv_def settle_loading settle_one)
qed (simp_all add: flight_inv_def handleAuthSuccess_def)

lemma flight_inv_run: "flight_inv (run tmsg evs init)"
proof (rule run_invariant [where P = flight_inv])
  show "flight_inv init" by (simp add: flight_inv_def init_def)
  show "\<And>e s. flight_inv s \<Longrightarrow> flight_inv (step tmsg e s)" by (rule flight_inv_step)
qed

lemma auth_inv_step: "auth_inv s \<Longrightarrow> auth_inv (step tmsg e s)"
proof (cases e)
  case ClickSubmit
  assume "auth_inv s"
  then show ?thesis using ClickSubmit
    by (simp add: auth_inv_def submit_disabled_def submit_sent submit_fields)
next
  case (Settle i out)
  assume "auth_inv s"
  then show ?thesis using Settle
    by (simp add: auth_inv_def settle_sent settle_fields)
next
  case (AuthSuccess name)
  assume "auth_inv s"
  then show ?thesis using AuthSuccess
    by (auto simp: auth_inv_def handleAuthSuccess_def screen_of_iff)
qed (auto simp: auth_inv_def screen_of_iff)

lemma auth_inv_run: "auth_inv (run tmsg evs init)"
proof (rule run_invariant [where P = auth_inv])
  show "auth_inv init" by (simp add: auth_inv_def init_def)
  show "\<And>e s. auth_inv s \<Longrightarrow> auth_inv (step tmsg e s)" by (rule auth_inv_step)
qed

lemma step_userName:
  "userName (step tmsg e s) = userName s \<or> is_auth e"
  by (cases e) (simp_all add: settle_fields submit_fields handleAuthSuccess_def)

lemma userName_run:
  "\<forall>e\<in>set evs. \<not> is_auth e \<Longrightarrow> userName (run tmsg evs s) = userName s"
proof (induction evs arbitrary: s)
  case Nil
  then show ?case by simp
next
  case (Cons e es)
  then have "userName (step tmsg e s) = userName s"
    using step_userName [of tmsg e s] by simp
  with Cons show ?case by simp
qed

lemma submit_noop: "submit_disabled s \<Longrightarrow> step tmsg ClickSubmit s = s"
  by simp

section \<open>Sample runs\<close>

text \<open>A user signs in through the log-in screen, types an input and submits it.\<close>

lemma run_signed_in:
  "run tmsg [ClickLogin, AuthSuccess (js ''ann''), ChangeInput v] init =
     init\<lparr>userName := js ''ann'', input := v\<rparr>"
  by (simp add: init_def screen_of_def handleAuthSuccess_def textarea_disabled_def js_eq_Nil)

lemma run_append: "run tmsg (xs @ ys) s = run tmsg ys (run tmsg xs s)"
  by (induction xs arbitrary: s) simp_all

lemma run_signed_in_then:
  "run tmsg (ClickLogin # AuthSuccess (js ''ann'') # ChangeInput v # evs) init =
     run tmsg evs (init\<lparr>userName := js ''ann'', input := v\<rparr>)"
  using run_append [of tmsg "[ClickLogin, AuthSuccess (js ''ann''), ChangeInput v]" evs init]
  by (simp only: run_signed_in append_Cons append_Nil)

lemma trim_x: "trim (js ''x'') = js ''x''"
  by (simp add: trim_def js_def is_ws_def)

lemma payload_x:
  "payload (js ''x'') t =
     \<lparr> job_text = js ''x'', job_url = [], company_name = [], analysis_type = t, job_title = [] \<rparr>"
proof -
  have "\<not> isUrl (js ''x'')"
    by (simp add: isUrl_def js_def ci_eq_def canonicalize_def)
  then show ?thesis by (simp add: payload_def trim_x)
qed

lemma run_submitted_x:
  "run tmsg [ClickLogin, AuthSuccess (js ''ann''), ChangeInput (js ''x''), ClickSubmit] init =
     init\<lparr>userName := js ''ann'', input := js ''x'', loading := True,
       sent := [payload (js ''x'') (js ''quick'')],
       inflight := [payload (js ''x'') (js ''quick'')]\<rparr>"
  unfolding run_signed_in_then
  by (simp add: init_def screen_of_def submit_disabled_def handleAnalyze_submit_def Let_def
      trim_x js_eq_Nil)

lemma run_submitted_detailed:
  "run tmsg [ClickLogin, AuthSuccess (js ''ann''), ChangeInput (js ''x''), ChooseDetailed,
             ClickSubmit] init =
     init\<lparr>userName := js ''ann'', input := js ''x'', analysisType := js ''detailed'',
       loading := True,
       sent := [payload (js ''x'') (js ''detailed'')],
       inflight := [payload (js ''x'') (js ''detailed'')]\<rparr>"
  unfolding run_signed_in_then
  by (simp add: init_def screen_of_def submit_disabled_def detailed_radio_disabled_def
      handleAnalyze_submit_def Let_def trim_x js_eq_Nil)

section \<open>Claims\<close>

subsection \<open>URL detection\<close>

text \<open>
  C1 (amended). The request fields are chosen by the URL test on the trimmed input. An
  input that begins with the case-insensitive prefix \<open>http://\<close> or \<open>https://\<close> keeps the
  prefix when trimmed. When the trimmed input begins with the prefix, a request is sent whose
  \<open>job_url\<close> is the trimmed input, non-empty, and whose \<open>job_text\<close> is empty. When the
  trimmed input is non-empty and does not begin with the prefix, a request is sent whose
  \<open>job_text\<close> is the trimmed input, non-empty, and whose \<open>job_url\<close> is empty. In every
  request sent, exactly one of the two fields is non-empty.
\<close>

theorem url_classification:
  "(begins_http (input s) \<longrightarrow> begins_http (trim (input s))) \<and>
   (begins_http (trim (input s)) \<longrightarrow>
      sent (handleAnalyze_submit s) = sent s @ [payload (input s) (analysisType s)] \<and>
      job_url (payload (input s) (analysisType s)) = trim (input s) \<and>
      job_url (payload (input s) (analysisType s)) \<noteq> [] \<and>
      job_text (payload (input s) (analysisType s)) = []) \<and>
   (\<not> begins_http (trim (input s)) \<and> trim (input s) \<noteq> [] \<longrightarrow>
      sent (handleAnalyze_submit s) = sent s @ [payload (input s) (analysisType s)] \<and>
      job_text (payload (input s) (analysisType s)) = trim (input s) \<and>
      job_text (payload (input s) (analysisType s)) \<noteq> [] \<and>
      job_url (payload (input s) (analysisType s)) = []) \<and>
   (\<forall>r. sent (handleAnalyze_submit s) = sent s @ [r] \<longrightarrow>
      (job_text r = []) \<noteq> (job_url r = []))"
proof (intro conjI impI allI)
  assume "begins_http (input s)" then show "begins_http (trim (input s))"
    by (rule begins_http_trim)
next
  assume b: "begins_http (trim (input s))"
  then have ne: "trim (input s) \<noteq> []" by (rule begins_http_nonempty)
  show "sent (handleAnalyze_submit s) = sent s @ [payload (input s) (analysisType s)]"
    by (simp add: submit_valid [OF ne])
  show "job_url (payload (input s) (analysisType s)) = trim (input s)"
    by (simp add: payload_url [OF b])
  show "job_url (payload (input s) (analysisType s)) \<noteq> []"
    using ne by (simp add: payload_url [OF b])
  show "job_text (payload (input s) (analysisType s)) = []"
    by (simp add: payload_url [OF b])
next
  assume a: "\<not> begins_http (trim (input s)) \<and> trim (input s) \<noteq> []"
  then have nb: "\<not> begins_http (trim (input s))" and ne: "trim (input s) \<noteq> []" by auto
  show "sent (handleAnalyze_submit s) = sent s @ [payload (input s) (analysisType s)]"
    by (simp add: submit_valid [OF ne])
  show "job_text (payload (input s) (analysisType s)) = trim (input s)"
    by (simp add: payload_text [OF nb])
  show "job_text (payload (input s) (analysisType s)) \<noteq> []"
    using ne by (simp add: payload_text [OF nb])
  show "job_url (payload (input s) (analysisType s)) = []"
    by (simp add: payload_text [OF nb])
next
  fix r assume r: "sent (handleAnalyze_submit s) = sent s @ [r]"
  have ne: "trim (input s) \<noteq> []"
  proof
    assume "trim (input s) = []"
    then show False using r by (simp add: submit_invalid)
  qed
  from r have req: "r = payload (input s) (analysisType s)"
    by (simp add: submit_valid [OF ne])
  show "(job_text r = []) \<noteq> (job_url r = [])"
    unfolding req using ne
    by (cases "begins_http (trim (input s))") (simp_all add: payload_url payload_text)
qed

text \<open>
  The theorem at an upper-case URL followed by a space, and at a plain description.
\<close>

theorem url_classification_witness:
  "begins_http (js ''HTTPS://example.com/job/123 '') \<and>
   sent (handleAnalyze_submit (init\<lparr>input := js ''HTTPS://example.com/job/123 ''\<rparr>)) =
     [payload (js ''HTTPS://example.com/job/123 '') (js ''quick'')] \<and>
   job_url (payload (js ''HTTPS://example.com/job/123 '') (js ''quick'')) =
     js ''HTTPS://example.com/job/123'' \<and>
   job_text (payload (js ''HTTPS://example.com/job/123 '') (js ''quick'')) = [] \<and>
   \<not> begins_http (js ''Earn 5000 a week'') \<and>
   sent (handleAnalyze_submit (init\<lparr>input := js ''Earn 5000 a week''\<rparr>)) =
     [payload (js ''Earn 5000 a week'') (js ''quick'')] \<and>
   job_text (payload (js ''Earn 5000 a week'') (js ''quick'')) = js ''Earn 5000 a week'' \<and>
   job_url (payload (js ''Earn 5000 a week'') (js ''quick'')) = []"
proof -
  let ?a = "init\<lparr>input := js ''HTTPS://example.com/job/123 ''\<rparr>"
  let ?b = "init\<lparr>input := js ''Earn 5000 a week''\<rparr>"
  have ia: "input ?a = js ''HTTPS://example.com/job/123 ''"
    and ib: "input ?b = js ''Earn 5000 a week''"
    and ta: "analysisType ?a = js ''quick''" and tb: "analysisType ?b = js ''quick''"
    and sa: "sent ?a = []" and sb: "sent ?b = []"
    by (simp_all add: init_def)
  have ha: "begins_http (js ''HTTPS://example.com/job/123 '')"
    by (simp add: begins_http_def begins_ci_def js_def ascii_lower_def)
  have tra: "trim (js ''HTTPS://example.com/job/123 '') = js ''HTTPS://example.com/job/123''"
    by (simp add: trim_def js_def is_ws_def)
  have trb: "trim (js ''Earn 5000 a week'') = js ''Earn 5000 a week''"
    by (simp add: trim_def js_def is_ws_def)
  have hb: "\<not> begins_http (js ''Earn 5000 a week'')"
    by (simp add: begins_http_def begins_ci_def js_def ascii_lower_def)
  have nb: "js ''Earn 5000 a week'' \<noteq> []"
    by (simp add: js_eq_Nil)
  from url_classification [of ?a] ha have a: "sent (handleAnalyze_submit ?a) =
       [payload (js ''HTTPS://example.com/job/123 '') (js ''quick'')]"
    "job_url (payload (js ''HTTPS://example.com/job/123 '') (js ''quick'')) =
       js ''HTTPS://example.com/job/123''"
    "job_text (payload (js ''HTTPS://example.com/job/123 '') (js ''quick'')) = []"
    unfolding ia ta sa tra by simp_all
  from url_classification [of ?b] hb nb have b: "sent (handleAnalyze_submit ?b) =
       [payload (js ''Earn 5000 a week'') (js ''quick'')]"
    "job_text (payload (js ''Earn 5000 a week'') (js ''quick'')) = js ''Earn 5000 a week''"
    "job_url (payload (js ''Earn 5000 a week'') (js ''quick'')) = []"
    unfolding ib tb sb trb by simp_all
  from ha hb a b show ?thesis by (intro conjI)
qed

text \<open>
  The claim as first stated, on the raw input: the input \<open>" http://x"\<close> does not begin with
  the prefix and is non-empty, yet the request carries it as \<open>job_url\<close> with an empty
  \<open>job_text\<close>, because the test is made after trimming.
\<close>

theorem raw_input_classification_counterexample:
  "\<not> begins_http (js '' http://x'') \<and> js '' http://x'' \<noteq> [] \<and>
   sent (run (js ''data is null'')
           [ClickLogin, AuthSuccess (js ''ann''), ChangeInput (js '' http://x''), ClickSubmit]
           init) =
     [\<lparr> job_text = [], job_url = js ''http://x'', company_name = [],
        analysis_type = js ''quick'', job_title = [] \<rparr>]"
proof (intro conjI)
  show "\<not> begins_http (js '' http://x'')"
    by (simp add: begins_http_def begins_ci_def js_def ascii_lower_def)
  show "js '' http://x'' \<noteq> []"
    by (simp add: js_eq_Nil)
  have t: "trim (js '' http://x'') = js ''http://x''"
    by (simp add: trim_def js_def is_ws_def)
  have u: "isUrl (js ''http://x'')"
    by (simp add: isUrl_def js_def ci_eq_def canonicalize_def)
  have n: "js ''http://x'' \<noteq> []"
    by (simp add: js_eq_Nil)
  show "sent (run (js ''data is null'')
           [ClickLogin, AuthSuccess (js ''ann''), ChangeInput (js '' http://x''), ClickSubmit]
           init) =
     [\<lparr> job_text = [], job_url = js ''http://x'', company_name = [],
        analysis_type = js ''quick'', job_title = [] \<rparr>]"
    by (simp add: init_def screen_of_def handleAuthSuccess_def textarea_disabled_def
        submit_disabled_def handleAnalyze_submit_def Let_def payload_def t u n js_eq_Nil)
qed

subsection \<open>Validation of the input\<close>

text \<open>
  C2. When the input is empty or consists of white space only (exactly when its trimmed form
  is empty), the handler issues no request and stores the fixed validation message, which
  the error panel shows. When the trimmed input is non-empty, the result is cleared and a
  request is issued: the validation branch is not taken.
\<close>

theorem empty_input_validation:
  "(trim (input s) = [] \<longleftrightarrow> (\<forall>c\<in>set (input s). is_ws c)) \<and>
   ((\<forall>c\<in>set (input s). is_ws c) \<longrightarrow>
      sent (handleAnalyze_submit s) = sent s \<and>
      inflight (handleAnalyze_submit s) = inflight s \<and>
      result (handleAnalyze_submit s) =
        Obj [(js ''error'', Str (js ''Please enter a job posting URL or description.''))] \<and>
      result_panel (result (handleAnalyze_submit s)) =
        ErrorPanel (Str (js ''Please enter a job posting URL or description.''))) \<and>
   (trim (input s) \<noteq> [] \<longrightarrow>
      result (handleAnalyze_submit s) = Null \<and>
      sent (handleAnalyze_submit s) = sent s @ [payload (input s) (analysisType s)])"
proof (intro conjI impI)
  show "trim (input s) = [] \<longleftrightarrow> (\<forall>c\<in>set (input s). is_ws c)"
    by (rule trim_empty_iff)
next
  assume "\<forall>c\<in>set (input s). is_ws c"
  then have e: "trim (input s) = []" by (simp add: trim_empty_iff)
  have m: "truthy (Str validation_message)"
    by (simp add: validation_message_def js_eq_Nil)
  show "sent (handleAnalyze_submit s) = sent s"
    and "inflight (handleAnalyze_submit s) = inflight s"
    by (simp_all add: submit_invalid [OF e])
  show "result (handleAnalyze_submit s) =
        Obj [(js ''error'', Str (js ''Please enter a job posting URL or description.''))]"
    by (simp add: submit_invalid [OF e] error_object_def validation_message_def)
  show "result_panel (result (handleAnalyze_submit s)) =
        ErrorPanel (Str (js ''Please enter a job posting URL or description.''))"
    using error_object_panel [OF m]
    by (simp add: submit_invalid [OF e] validation_message_def)
next
  assume ne: "trim (input s) \<noteq> []"
  show "result (handleAnalyze_submit s) = Null"
    and "sent (handleAnalyze_submit s) = sent s @ [payload (input s) (analysisType s)]"
    by (simp_all add: submit_valid [OF ne])
qed

text \<open>The theorem at a blank input (space, tab, no-break space) and at the input \<open>"x"\<close>.\<close>

theorem empty_input_validation_witness:
  "sent (handleAnalyze_submit (init\<lparr>input := [0x20, 0x09, 0xA0]\<rparr>)) = [] \<and>
   result (handleAnalyze_submit (init\<lparr>input := [0x20, 0x09, 0xA0]\<rparr>)) =
     Obj [(js ''error'', Str (js ''Please enter a job posting URL or description.''))] \<and>
   result (handleAnalyze_submit (init\<lparr>input := js ''x''\<rparr>)) = Null \<and>
   sent (handleAnalyze_submit (init\<lparr>input := js ''x''\<rparr>)) = [payload (js ''x'') (js ''quick'')]"
proof -
  let ?a = "init\<lparr>input := [0x20, 0x09, 0xA0]\<rparr>"
  let ?b = "init\<lparr>input := js ''x''\<rparr>"
  have ws: "\<forall>c\<in>set (input ?a). is_ws c"
    by (simp add: is_ws_def)
  have ne: "trim (input ?b) \<noteq> []"
    by (simp add: trim_def js_def is_ws_def)
  have f: "sent ?a = []" "sent ?b = []" "input ?b = js ''x''" "analysisType ?b = js ''quick''"
    by (simp_all add: init_def)
  from empty_input_validation [of ?a] ws
  have a: "sent (handleAnalyze_submit ?a) = sent ?a"
    "result (handleAnalyze_submit ?a) =
       Obj [(js ''error'', Str (js ''Please enter a job posting URL or description.''))]"
    by blast+
  from empty_input_validation [of ?b] ne
  have b: "result (handleAnalyze_submit ?b) = Null"
    "sent (handleAnalyze_submit ?b) = sent ?b @ [payload (input ?b) (analysisType ?b)]"
    by blast+
  from a b show ?thesis unfolding f by simp
qed

subsection \<open>Failure of a request\<close>

text \<open>
  C3 (amended). Take a settled request whose body, if any, has an \<open>error\<close> field that is
  absent, \<open>null\<close> or a string, and let the message of any error caught in the \<open>try\<close> block
  be non-empty. Then the request is treated as failure, that is, the stored result is an
  object whose only field \<open>error\<close> is a non-empty string, exactly when the awaited calls
  reject, or the status is not 2xx, or the parsed body has a non-empty \<open>error\<close> field, or
  the parsed body is \<open>null\<close> (reading its \<open>error\<close> property throws; \<open>undefined\<close>, which
  no body parses to, is handled alike). The error panel is shown in exactly these cases, and
  it is shown with the stored string. A body with a non-empty \<open>error\<close> field takes this path
  with that string whatever its status and other fields are. In every other case the parsed
  body of a 2xx response is stored as it is and the chain does not select the error panel.
\<close>

theorem failure_exactly:
  assumes tm: "tmsg \<noteq> []" and rm: "\<forall>m. out = Rejects m \<longrightarrow> m \<noteq> []"
    and es: "\<forall>ok data. out = Resolves ok data \<longrightarrow>
               jsprop data (js ''error'') = Undefined \<or> jsprop data (js ''error'') = Null \<or>
               (\<exists>m. jsprop data (js ''error'') = Str m)"
  shows "((\<exists>m. m \<noteq> [] \<and> result (handleAnalyze_settle tmsg out s) = Obj [(js ''error'', Str m)]) \<longleftrightarrow>
            (case out of
               Rejects m \<Rightarrow> True
             | Resolves ok data \<Rightarrow>
                 \<not> ok \<or> (\<exists>m. m \<noteq> [] \<and> jsprop data (js ''error'') = Str m) \<or>
                 data = Null \<or> data = Undefined)) \<and>
         ((\<exists>e. render_result (result (handleAnalyze_settle tmsg out s)) = Shows (ErrorPanel e)) \<longleftrightarrow>
            (\<exists>m. m \<noteq> [] \<and> result (handleAnalyze_settle tmsg out s) = Obj [(js ''error'', Str m)])) \<and>
         (\<forall>m. m \<noteq> [] \<and> result (handleAnalyze_settle tmsg out s) = Obj [(js ''error'', Str m)] \<longrightarrow>
            render_result (result (handleAnalyze_settle tmsg out s)) = Shows (ErrorPanel (Str m))) \<and>
         (\<forall>ok kvs m. out = Resolves ok (Obj kvs) \<and> map_of kvs (js ''error'') = Some (Str m) \<and>
              m \<noteq> [] \<longrightarrow>
            result (handleAnalyze_settle tmsg out s) = Obj [(js ''error'', Str m)] \<and>
            render_result (result (handleAnalyze_settle tmsg out s)) = Shows (ErrorPanel (Str m))) \<and>
         ((\<forall>m. m \<noteq> [] \<longrightarrow> result (handleAnalyze_settle tmsg out s) \<noteq> Obj [(js ''error'', Str m)]) \<longrightarrow>
            (\<exists>data. out = Resolves True data \<and> result (handleAnalyze_settle tmsg out s) = data \<and>
               (\<forall>e. result_panel data \<noteq> ErrorPanel e)))"
proof -
  let ?R = "result (handleAnalyze_settle tmsg out s)"
  have shown: "render_result ?R = Shows (ErrorPanel (Str m))"
    if "m \<noteq> []" "?R = Obj [(js ''error'', Str m)]" for m
    using that by (simp add: render_error_string)
  show ?thesis
  proof (cases out)
    case (Rejects m)
    with rm have m: "m \<noteq> []" by simp
    have r: "?R = Obj [(js ''error'', Str m)]"
      using Rejects by (simp add: settle_result error_object_def)
    from shown [OF m r] have sh: "render_result ?R = Shows (ErrorPanel (Str m))" .
    show ?thesis
      using Rejects m r sh shown by auto
  next
    case (Resolves ok data)
    from es Resolves have ty:
      "jsprop data (js ''error'') = Undefined \<or> jsprop data (js ''error'') = Null \<or>
       (\<exists>m. jsprop data (js ''error'') = Str m)"
      by simp
    have fm: "failed_message \<noteq> []"
      using failed_message_truthy by simp
    have "(data = Null \<or> data = Undefined) \<or>
          (\<exists>m. jsprop data (js ''error'') = Str m \<and> m \<noteq> []) \<or>
          \<not> truthy (jsprop data (js ''error''))"
      using ty by (cases "truthy (jsprop data (js ''error''))") auto
    then consider (null) "data = Null \<or> data = Undefined"
      | (err) m where "data \<noteq> Null" "data \<noteq> Undefined" "jsprop data (js ''error'') = Str m" "m \<noteq> []"
      | (bad) "data \<noteq> Null" "data \<noteq> Undefined" "\<not> truthy (jsprop data (js ''error''))" "\<not> ok"
      | (good) "data \<noteq> Null" "data \<noteq> Undefined" "\<not> truthy (jsprop data (js ''error''))" "ok"
      by blast
    then show ?thesis
    proof cases
      case null
      then have r: "?R = Obj [(js ''error'', Str tmsg)]"
        using Resolves by (auto simp: settle_result error_object_def)
      from shown [OF tm r] have sh: "render_result ?R = Shows (ErrorPanel (Str tmsg))" .
      show ?thesis
        using Resolves null tm r sh shown by auto
    next
      case err
      then have r: "?R = Obj [(js ''error'', Str m)]"
        using Resolves by (simp add: settle_result error_object_def)
      from shown [OF err(4) r] have sh: "render_result ?R = Shows (ErrorPanel (Str m))" .
      show ?thesis
        using Resolves err r sh shown by auto
    next
      case bad
      then have r: "?R = Obj [(js ''error'', Str failed_message)]"
        using Resolves by (simp add: settle_result error_object_def)
      from shown [OF fm r] have sh: "render_result ?R = Shows (ErrorPanel (Str failed_message))" .
      from bad(3) have ne: "\<And>m. m \<noteq> [] \<Longrightarrow> jsprop data (js ''error'') \<noteq> Str m"
        by auto
      show ?thesis
        using Resolves bad fm r sh shown ne by auto
    next
      case good
      then have r: "?R = data"
        using Resolves by (simp add: settle_result)
      from good(3) have ne: "\<And>m. m \<noteq> [] \<Longrightarrow> jsprop data (js ''error'') \<noteq> Str m"
        by auto
      have a: "\<And>m. m \<noteq> [] \<Longrightarrow> data \<noteq> Obj [(js ''error'', Str m)]"
        using good(3) by (rule falsy_not_error_object)
      have b: "\<And>e. render_result data \<noteq> Shows (ErrorPanel e)"
        using good(3) by (rule not_error_shown)
      have c: "\<And>e. result_panel data \<noteq> ErrorPanel e"
        using good(3) by (rule falsy_error_panel)
      show ?thesis
        unfolding r using Resolves good ne a b c by auto
    qed
  qed
qed

text \<open>
  The theorem at a 200 response that carries both an \<open>error\<close> and a \<open>risk_score\<close>, and at
  a rejected call.
\<close>

theorem failure_exactly_witness:
  "js ''data is null'' \<noteq> [] \<and> js ''Failed to fetch'' \<noteq> [] \<and>
   jsprop (Obj [(js ''risk_score'', Num (Fin 12)), (js ''error'', Str (js ''quota''))])
     (js ''error'') = Str (js ''quota'') \<and>
   result (handleAnalyze_settle (js ''data is null'')
     (Resolves True (Obj [(js ''risk_score'', Num (Fin 12)), (js ''error'', Str (js ''quota''))]))
     init) = Obj [(js ''error'', Str (js ''quota''))] \<and>
   render_result (result (handleAnalyze_settle (js ''data is null'')
     (Resolves True (Obj [(js ''risk_score'', Num (Fin 12)), (js ''error'', Str (js ''quota''))]))
     init)) = Shows (ErrorPanel (Str (js ''quota''))) \<and>
   (\<exists>m. m \<noteq> [] \<and> result (handleAnalyze_settle (js ''data is null'')
     (Rejects (js ''Failed to fetch'')) init) = Obj [(js ''error'', Str m)])"
proof -
  let ?d = "Obj [(js ''risk_score'', Num (Fin 12)), (js ''error'', Str (js ''quota''))]"
  have t: "js ''data is null'' \<noteq> []" and f: "js ''Failed to fetch'' \<noteq> []"
    and q: "js ''quota'' \<noteq> []"
    by (simp_all add: js_eq_Nil)
  have l: "map_of [(js ''risk_score'', Num (Fin 12)), (js ''error'', Str (js ''quota''))]
             (js ''error'') = Some (Str (js ''quota''))"
    by (simp add: js_eq_iff)
  then have p: "jsprop ?d (js ''error'') = Str (js ''quota'')" by simp
  have a: "\<forall>m. Resolves True ?d = Rejects m \<longrightarrow> m \<noteq> []" by simp
  have a': "\<forall>ok data. Resolves True ?d = Resolves ok data \<longrightarrow>
       jsprop data (js ''error'') = Undefined \<or> jsprop data (js ''error'') = Null \<or>
       (\<exists>m. jsprop data (js ''error'') = Str m)"
    using p by auto
  have b: "\<forall>m. Rejects (js ''Failed to fetch'') = Rejects m \<longrightarrow> m \<noteq> []"
    using f by simp
  have b': "\<forall>ok data. Rejects (js ''Failed to fetch'') = Resolves ok data \<longrightarrow>
       jsprop data (js ''error'') = Undefined \<or> jsprop data (js ''error'') = Null \<or>
       (\<exists>m. jsprop data (js ''error'') = Str m)"
    by simp
  from failure_exactly [OF t a a', of init] l q
  have 1: "result (handleAnalyze_settle (js ''data is null'') (Resolves True ?d) init) =
             Obj [(js ''error'', Str (js ''quota''))]"
    and 2: "render_result (result (handleAnalyze_settle (js ''data is null'') (Resolves True ?d) init)) =
             Shows (ErrorPanel (Str (js ''quota'')))"
    by blast+
  from failure_exactly [OF t b b', of init]
  have 3: "\<exists>m. m \<noteq> [] \<and> result (handleAnalyze_settle (js ''data is null'')
     (Rejects (js ''Failed to fetch'')) init) = Obj [(js ''error'', Str m)]"
    by simp
  from t f p 1 2 3 show ?thesis by (intro conjI)
qed

text \<open>
  The claim as first stated fails at three outcomes of a submitted request. A 200 response
  whose body is \<open>null\<close> has no \<open>error\<close> field and no call rejects, yet the engine's message is
  stored and the error panel is shown. A rejection whose error has an empty message stores
  an empty \<open>error\<close> field, and the result panel is shown, not the error panel. A 200 response
  whose \<open>error\<close> field is an object takes the error path, and rendering the error panel
  throws.
\<close>

theorem failure_classification_counterexample:
  "result (run (js ''data is null'')
     [ClickLogin, AuthSuccess (js ''ann''), ChangeInput (js ''x''), ClickSubmit,
      Settle 0 (Resolves True Null)] init) = Obj [(js ''error'', Str (js ''data is null''))] \<and>
   render_result (Obj [(js ''error'', Str (js ''data is null''))]) =
     Shows (ErrorPanel (Str (js ''data is null''))) \<and>
   result (run (js ''data is null'')
     [ClickLogin, AuthSuccess (js ''ann''), ChangeInput (js ''x''), ClickSubmit,
      Settle 0 (Rejects [])] init) = Obj [(js ''error'', Str [])] \<and>
   render_result (Obj [(js ''error'', Str [])]) = Shows (ResultPanel (Obj [(js ''error'', Str [])])) \<and>
   result (run (js ''data is null'')
     [ClickLogin, AuthSuccess (js ''ann''), ChangeInput (js ''x''), ClickSubmit,
      Settle 0 (Resolves True (Obj [(js ''error'', Obj [(js ''code'', Num (Fin 1))])]))] init) =
     Obj [(js ''error'', Obj [(js ''code'', Num (Fin 1))])] \<and>
   render_result (Obj [(js ''error'', Obj [(js ''code'', Num (Fin 1))])]) = Throws"
proof -
  have t: "trim (js ''x'') \<noteq> []"
    by (simp add: trim_x js_eq_Nil)
  have n: "js ''data is null'' \<noteq> []" by (simp add: js_eq_Nil)
  have r: "run tmsg [ClickLogin, AuthSuccess (js ''ann''), ChangeInput (js ''x''), ClickSubmit,
      Settle 0 out] init =
      (handleAnalyze_settle tmsg out
        (init\<lparr>userName := js ''ann'', input := js ''x'', loading := True,
           sent := [payload (js ''x'') (js ''quick'')],
           inflight := [payload (js ''x'') (js ''quick'')]\<rparr>))\<lparr>inflight := []\<rparr>" for tmsg out
    by (simp add: init_def screen_of_def handleAuthSuccess_def textarea_disabled_def
        submit_disabled_def handleAnalyze_submit_def Let_def t js_eq_Nil)
  have 1: "render_result (Obj [(js ''error'', Str (js ''data is null''))]) =
     Shows (ErrorPanel (Str (js ''data is null'')))"
    using n by (rule render_error_string)
  have 2: "render_result (Obj [(js ''error'', Str [])]) =
     Shows (ResultPanel (Obj [(js ''error'', Str [])]))"
    by (simp add: render_result_def result_panel_def panel_children_def red_flags_section_def
        js_eq_iff)
  have 3: "render_result (Obj [(js ''error'', Obj [(js ''code'', Num (Fin 1))])]) = Throws"
    by (simp add: render_result_def result_panel_def panel_children_def)
  show ?thesis
    unfolding r using 1 2 3 by (simp add: settle_result error_object_def)
qed

subsection \<open>The red-flag grid\<close>

text \<open>
  C4. When \<open>result.analysis\<close> is present (truthy, as every object is), the red-flag grid
  has exactly 8 tiles: the first \<open>min n 8\<close> of the \<open>n\<close> entries of \<open>analysis.red_flags\<close> in
  their order, followed by the string \<open>"No flag"\<close> up to 8 tiles; entries after the eighth
  are dropped. The grid belongs to the result panel, which is the panel shown for such a
  result unless its \<open>error\<close> field is truthy.
\<close>

theorem red_flag_grid:
  assumes "jsprop r (js ''analysis'') = a" and "truthy a"
    and "array_entries (jsprop a (js ''red_flags'')) = flags"
  shows "red_flags_section r =
           Some (take (min (length flags) 8) flags @
                 replicate (8 - min (length flags) 8) (Str (js ''No flag''))) \<and>
         length (the (red_flags_section r)) = 8 \<and>
         (\<not> truthy (jsprop r (js ''error'')) \<longrightarrow> result_panel r = ResultPanel r)"
proof -
  have p: "result_panel r = ResultPanel r" if "\<not> truthy (jsprop r (js ''error''))"
    using that assms(1,2) by (cases r) (auto simp: result_panel_def)
  have t: "take (min (length flags) 8) flags = take 8 flags"
    by (simp add: min_def)
  have "red_flags_section r = Some (red_flag_tiles a)"
    using assms(1,2) by (simp add: red_flags_section_def)
  also have "red_flag_tiles a =
      take 8 flags @ replicate (8 - min (length flags) 8) no_flag"
    using assms(3) by (simp only: red_flag_tiles_eq)
  finally have s: "red_flags_section r =
      Some (take (min (length flags) 8) flags @
            replicate (8 - min (length flags) 8) (Str (js ''No flag'')))"
    by (simp only: t no_flag_def)
  have "length (take (min (length flags) 8) flags @
            replicate (8 - min (length flags) 8) (Str (js ''No flag''))) = 8"
    by (simp add: min_def)
  with s p show ?thesis by simp
qed

text \<open>The theorem at a response with three red flags.\<close>

theorem red_flag_grid_witness:
  "truthy (Obj [(js ''red_flags'', Arr [Str (js ''a''), Str (js ''b''), Str (js ''c'')])]) \<and>
   red_flags_section
     (Obj [(js ''risk_score'', Num (Fin 85)),
           (js ''analysis'',
            Obj [(js ''red_flags'', Arr [Str (js ''a''), Str (js ''b''), Str (js ''c'')])])]) =
     Some [Str (js ''a''), Str (js ''b''), Str (js ''c''), Str (js ''No flag''),
           Str (js ''No flag''), Str (js ''No flag''), Str (js ''No flag''),
           Str (js ''No flag'')]"
proof -
  let ?a = "Obj [(js ''red_flags'', Arr [Str (js ''a''), Str (js ''b''), Str (js ''c'')])]"
  let ?r = "Obj [(js ''risk_score'', Num (Fin 85)), (js ''analysis'', ?a)]"
  have 1: "jsprop ?r (js ''analysis'') = ?a" by (simp add: js_eq_iff)
  have 2: "truthy ?a" by simp
  have 3: "array_entries (jsprop ?a (js ''red_flags'')) =
             [Str (js ''a''), Str (js ''b''), Str (js ''c'')]"
    by (simp add: array_entries_def)
  from red_flag_grid [OF 1 2 3] 2 show ?thesis
    by (simp add: eval_nat_numeral)
qed

subsection \<open>One request in flight\<close>

text \<open>
  C5. In every reachable state at most one request is in flight, and \<open>loading\<close> holds exactly
  when one is. While \<open>loading\<close> holds, pressing the submit button changes nothing, and no
  event adds a request. Pressing the enabled button with a non-blank input sets \<open>loading\<close> and
  puts one request in flight; when that request settles, by resolving or rejecting,
  \<open>loading\<close> is reset and nothing is in flight.
\<close>

theorem single_flight:
  assumes s: "s = run tmsg evs init"
  shows "length (inflight s) \<le> 1 \<and>
         (loading s \<longleftrightarrow> length (inflight s) = 1) \<and>
         (loading s \<longrightarrow> step tmsg ClickSubmit s = s \<and> sent (step tmsg e s) = sent s) \<and>
         (screen_of s = MainPage \<and> \<not> submit_disabled s \<and> trim (input s) \<noteq> [] \<longrightarrow>
            loading (step tmsg ClickSubmit s) \<and>
            inflight (step tmsg ClickSubmit s) = [payload (input s) (analysisType s)]) \<and>
         (\<forall>i out. i < length (inflight s) \<longrightarrow>
            \<not> loading (step tmsg (Settle i out) s) \<and> inflight (step tmsg (Settle i out) s) = [])"
proof -
  have inv: "flight_inv s" unfolding s by (rule flight_inv_run)
  then have le: "length (inflight s) \<le> 1" and ld: "loading s \<longleftrightarrow> inflight s \<noteq> []"
    by (simp_all add: flight_inv_def)
  have one: "loading s \<longleftrightarrow> length (inflight s) = 1"
    using le ld by (cases "inflight s") auto
  have noop: "step tmsg ClickSubmit s = s \<and> sent (step tmsg e s) = sent s" if "loading s"
    using that step_sent [of tmsg e s] by (auto simp: submit_disabled_def)
  have start: "loading (step tmsg ClickSubmit s) \<and>
      inflight (step tmsg ClickSubmit s) = [payload (input s) (analysisType s)]"
    if "screen_of s = MainPage \<and> \<not> submit_disabled s \<and> trim (input s) \<noteq> []"
    using that ld by (simp add: submit_disabled_def submit_loading submit_inflight)
  have settle: "\<not> loading (step tmsg (Settle i out) s) \<and> inflight (step tmsg (Settle i out) s) = []"
    if "i < length (inflight s)" for i out
    using that le by (simp add: settle_loading settle_one)
  from le one noop start settle show ?thesis by blast
qed

text \<open>
  The theorem at the state reached by signing in, typing \<open>"x"\<close> and pressing submit.
\<close>

theorem single_flight_witness:
  "loading (run (js ''data is null'')
     [ClickLogin, AuthSuccess (js ''ann''), ChangeInput (js ''x''), ClickSubmit] init) \<and>
   length (inflight (run (js ''data is null'')
     [ClickLogin, AuthSuccess (js ''ann''), ChangeInput (js ''x''), ClickSubmit] init)) = 1 \<and>
   run (js ''data is null'')
     [ClickLogin, AuthSuccess (js ''ann''), ChangeInput (js ''x''), ClickSubmit, ClickSubmit] init =
   run (js ''data is null'')
     [ClickLogin, AuthSuccess (js ''ann''), ChangeInput (js ''x''), ClickSubmit] init \<and>
   \<not> loading (run (js ''data is null'')
     [ClickLogin, AuthSuccess (js ''ann''), ChangeInput (js ''x''), ClickSubmit,
      Settle 0 (Rejects (js ''Failed to fetch''))] init)"
proof -
  let ?t = "js ''data is null''"
  let ?evs = "[ClickLogin, AuthSuccess (js ''ann''), ChangeInput (js ''x''), ClickSubmit]"
  let ?s = "init\<lparr>userName := js ''ann'', input := js ''x'', loading := True,
       sent := [payload (js ''x'') (js ''quick'')],
       inflight := [payload (js ''x'') (js ''quick'')]\<rparr>"
  have r: "?s = run ?t ?evs init"
    by (simp only: run_submitted_x)
  have l: "loading ?s" by simp
  have a: "run ?t (?evs @ [e]) init = step ?t e ?s" for e
    unfolding run_append run_submitted_x by (simp only: run.simps)
  have i: "0 < length (inflight ?s)" by simp
  from single_flight [OF r, of ClickSubmit] l i
  have 1: "length (inflight ?s) = 1" and 2: "step ?t ClickSubmit ?s = ?s"
    and 3: "\<not> loading (step ?t (Settle 0 (Rejects (js ''Failed to fetch''))) ?s)"
    by blast+
  have f1: "loading (run ?t ?evs init)" unfolding run_submitted_x by (rule l)
  have f2: "length (inflight (run ?t ?evs init)) = 1" unfolding run_submitted_x by (rule 1)
  have f3: "run ?t (?evs @ [ClickSubmit]) init = run ?t ?evs init"
    unfolding a run_submitted_x by (rule 2)
  have f4: "\<not> loading (run ?t (?evs @ [Settle 0 (Rejects (js ''Failed to fetch''))]) init)"
    unfolding a by (rule 3)
  from f1 f2 f3 [unfolded append_Cons append_Nil] f4 [unfolded append_Cons append_Nil]
  show ?thesis by (intro conjI)
qed

subsection \<open>The analysis type\<close>

text \<open>
  C6. Every request sent carries \<open>analysis_type\<close> \<open>"quick"\<close> or \<open>"detailed"\<close>, whatever
  the events were; and when no selector event occurred, every request carries \<open>"quick"\<close>,
  the initial value.
\<close>

theorem analysis_type_values:
  "analysisType init = js ''quick'' \<and>
   (\<forall>r\<in>set (sent (run tmsg evs init)).
      analysis_type r = js ''quick'' \<or> analysis_type r = js ''detailed'') \<and>
   ((\<forall>e\<in>set evs. \<not> is_selector e) \<longrightarrow>
      (\<forall>r\<in>set (sent (run tmsg evs init)). analysis_type r = js ''quick''))"
proof (intro conjI impI)
  show "analysisType init = js ''quick''" by (simp add: init_def)
  show "\<forall>r\<in>set (sent (run tmsg evs init)).
      analysis_type r = js ''quick'' \<or> analysis_type r = js ''detailed''"
    using type_inv_run [of tmsg evs] by (simp add: type_inv_def)
next
  assume n: "\<forall>e\<in>set evs. \<not> is_selector e"
  have "quick_inv init" by (simp add: quick_inv_def init_def)
  from quick_inv_run [OF this n, of tmsg]
  show "\<forall>r\<in>set (sent (run tmsg evs init)). analysis_type r = js ''quick''"
    by (simp add: quick_inv_def)
qed

text \<open>
  The theorem at a run that selects \<open>"detailed"\<close> before submitting, and at one that never
  touches the selector.
\<close>

theorem analysis_type_values_witness:
  "sent (run (js ''data is null'')
     [ClickLogin, AuthSuccess (js ''ann''), ChangeInput (js ''x''), ChooseDetailed, ClickSubmit]
     init) = [payload (js ''x'') (js ''detailed'')] \<and>
   (analysis_type (payload (js ''x'') (js ''detailed'')) = js ''quick'' \<or>
    analysis_type (payload (js ''x'') (js ''detailed'')) = js ''detailed'') \<and>
   sent (run (js ''data is null'')
     [ClickLogin, AuthSuccess (js ''ann''), ChangeInput (js ''x''), ClickSubmit]
     init) = [payload (js ''x'') (js ''quick'')] \<and>
   analysis_type (payload (js ''x'') (js ''quick'')) = js ''quick''"
proof -
  let ?t = "js ''data is null''"
  let ?d = "[ClickLogin, AuthSuccess (js ''ann''), ChangeInput (js ''x''), ChooseDetailed,
             ClickSubmit]"
  let ?q = "[ClickLogin, AuthSuccess (js ''ann''), ChangeInput (js ''x''), ClickSubmit]"
  have sd: "sent (run ?t ?d init) = [payload (js ''x'') (js ''detailed'')]"
    unfolding run_submitted_detailed by simp
  have sq: "sent (run ?t ?q init) = [payload (js ''x'') (js ''quick'')]"
    unfolding run_submitted_x by simp
  have nq: "\<forall>e\<in>set ?q. \<not> is_selector e" by simp
  from analysis_type_values [of ?t ?d]
  have 1: "analysis_type (payload (js ''x'') (js ''detailed'')) = js ''quick'' \<or>
           analysis_type (payload (js ''x'') (js ''detailed'')) = js ''detailed''"
    unfolding sd by simp
  from analysis_type_values [of ?t ?q] nq
  have 2: "analysis_type (payload (js ''x'') (js ''quick'')) = js ''quick''"
    unfolding sq by simp
  from sd 1 sq 2 show ?thesis by (intro conjI)
qed

subsection \<open>The reserved fields\<close>

text \<open>
  C7. Every request sent has empty \<open>company_name\<close> and \<open>job_title\<close>; and submitting the
  input \<open>"https://example.com/job/123"\<close> with the type \<open>"detailed"\<close> sends exactly the
  request of the example.
\<close>

theorem reserved_fields_empty:
  "(\<forall>r\<in>set (sent (run tmsg evs init)). company_name r = [] \<and> job_title r = []) \<and>
   (input s = js ''https://example.com/job/123'' \<and> analysisType s = js ''detailed'' \<longrightarrow>
      sent (handleAnalyze_submit s) =
        sent s @ [\<lparr> job_text = [], job_url = js ''https://example.com/job/123'',
                     company_name = [], analysis_type = js ''detailed'', job_title = [] \<rparr>])"
proof (intro conjI impI)
  show "\<forall>r\<in>set (sent (run tmsg evs init)). company_name r = [] \<and> job_title r = []"
    using reserved_inv_run [of tmsg evs] by (simp add: reserved_inv_def)
next
  assume a: "input s = js ''https://example.com/job/123'' \<and> analysisType s = js ''detailed''"
  have t: "trim (js ''https://example.com/job/123'') = js ''https://example.com/job/123''"
    by (simp add: trim_def js_def is_ws_def)
  have u: "isUrl (js ''https://example.com/job/123'')"
    by (simp add: isUrl_def js_def ci_eq_def canonicalize_def)
  have n: "js ''https://example.com/job/123'' \<noteq> []"
    by (simp add: js_eq_Nil)
  from a show "sent (handleAnalyze_submit s) =
        sent s @ [\<lparr> job_text = [], job_url = js ''https://example.com/job/123'',
                     company_name = [], analysis_type = js ''detailed'', job_title = [] \<rparr>]"
    by (simp add: submit_sent t n payload_def u)
qed

text \<open>The theorem at the example, entered through the form.\<close>

theorem reserved_fields_empty_witness:
  "sent (run (js ''data is null'')
     [ClickLogin, AuthSuccess (js ''ann''), ChangeInput (js ''https://example.com/job/123''),
      ChooseDetailed, ClickSubmit] init) =
     [\<lparr> job_text = [], job_url = js ''https://example.com/job/123'',
        company_name = [], analysis_type = js ''detailed'', job_title = [] \<rparr>]"
proof -
  let ?t = "js ''data is null''"
  let ?s = "init\<lparr>userName := js ''ann'', input := js ''https://example.com/job/123'',
              analysisType := js ''detailed''\<rparr>"
  have r: "run ?t [ClickLogin, AuthSuccess (js ''ann''),
        ChangeInput (js ''https://example.com/job/123''), ChooseDetailed, ClickSubmit] init =
      handleAnalyze_submit ?s"
    unfolding run_signed_in_then
    by (simp add: init_def screen_of_def submit_disabled_def detailed_radio_disabled_def
        js_eq_Nil)
  have i: "input ?s = js ''https://example.com/job/123'' \<and> analysisType ?s = js ''detailed''"
    and e: "sent ?s = []"
    by (simp_all add: init_def)
  from reserved_fields_empty [of ?t "[]" ?s] i
  show ?thesis unfolding r e by simp
qed

subsection \<open>Screen selection\<close>

text \<open>
  C8. The screen is chosen by testing the sign-up flag first, then the log-in flag, then
  the profile flag: each combination of the flags gives one screen, and when several flags
  are set the first one tested wins.
\<close>

theorem screen_selection:
  "(showSignUp s \<longrightarrow> screen_of s = SignUpPage) \<and>
   (\<not> showSignUp s \<and> showLogin s \<longrightarrow> screen_of s = LoginScreen) \<and>
   (\<not> showSignUp s \<and> \<not> showLogin s \<and> showProfile s \<longrightarrow> screen_of s = ProfilePage) \<and>
   (\<not> showSignUp s \<and> \<not> showLogin s \<and> \<not> showProfile s \<longrightarrow> screen_of s = MainPage)"
  by (simp add: screen_of_def)

text \<open>The theorem at a state with the sign-up and the log-in flag both set.\<close>

theorem screen_selection_witness:
  "showSignUp (init\<lparr>showSignUp := True, showLogin := True\<rparr>) \<and>
   showLogin (init\<lparr>showSignUp := True, showLogin := True\<rparr>) \<and>
   screen_of (init\<lparr>showSignUp := True, showLogin := True\<rparr>) = SignUpPage \<and>
   screen_of (init\<lparr>showLogin := True, showProfile := True\<rparr>) = LoginScreen \<and>
   screen_of init = MainPage"
  using screen_selection [of "init\<lparr>showSignUp := True, showLogin := True\<rparr>"]
    screen_selection [of "init\<lparr>showLogin := True, showProfile := True\<rparr>"]
    screen_selection [of init]
  by (simp add: init_def)

subsection \<open>The form before log-in\<close>

text \<open>
  C9. While no user name is set, the textarea, both radio buttons and the submit button
  are disabled and the log-in notice is shown, and pressing submit, typing, or choosing a type
  changes nothing. After any events none of which is an auth-success callback, no user name
  is set and no request has been sent; more generally no request has been sent in any
  reachable state without a user name.
\<close>

theorem form_disabled_before_login:
  "(userName s = [] \<longrightarrow>
      textarea_disabled s \<and> quick_radio_disabled s \<and> detailed_radio_disabled s \<and>
      submit_disabled s \<and>
      login_notice s = Some (js ''Please log in to analyze job postings.'') \<and>
      step tmsg ClickSubmit s = s \<and> step tmsg (ChangeInput v) s = s \<and>
      step tmsg ChooseQuick s = s \<and> step tmsg ChooseDetailed s = s) \<and>
   ((\<forall>e\<in>set evs. \<not> is_auth e) \<longrightarrow>
      userName (run tmsg evs init) = [] \<and> sent (run tmsg evs init) = []) \<and>
   (userName (run tmsg evs init) = [] \<longrightarrow> sent (run tmsg evs init) = [])"
proof (intro conjI impI)
  assume "userName s = []"
  then show "textarea_disabled s" "quick_radio_disabled s" "detailed_radio_disabled s"
    "submit_disabled s" "login_notice s = Some (js ''Please log in to analyze job postings.'')"
    "step tmsg ClickSubmit s = s" "step tmsg (ChangeInput v) s = s"
    "step tmsg ChooseQuick s = s" "step tmsg ChooseDetailed s = s"
    by (simp_all add: textarea_disabled_def quick_radio_disabled_def
        detailed_radio_disabled_def submit_disabled_def login_notice_def)
next
  have inv: "userName (run tmsg evs init) = [] \<Longrightarrow> sent (run tmsg evs init) = []"
    using auth_inv_run [of tmsg evs] by (auto simp: auth_inv_def)
  {
    assume "\<forall>e\<in>set evs. \<not> is_auth e"
    then have u: "userName (run tmsg evs init) = []"
      by (simp add: userName_run init_def)
    then show "userName (run tmsg evs init) = []" .
    from u show "sent (run tmsg evs init) = []" by (rule inv)
  }
  assume "userName (run tmsg evs init) = []"
  then show "sent (run tmsg evs init) = []" by (rule inv)
qed

text \<open>
  The theorem at the initial state and at a run that types and presses submit without
  signing in.
\<close>

theorem form_disabled_before_login_witness:
  "userName init = [] \<and> submit_disabled init \<and> textarea_disabled init \<and>
   login_notice init = Some (js ''Please log in to analyze job postings.'') \<and>
   step (js ''data is null'') ClickSubmit init = init \<and>
   userName (run (js ''data is null'')
     [ChangeInput (js ''x''), ChooseDetailed, ClickSubmit, ClickLogin, LoginBack, ClickSubmit]
     init) = [] \<and>
   sent (run (js ''data is null'')
     [ChangeInput (js ''x''), ChooseDetailed, ClickSubmit, ClickLogin, LoginBack, ClickSubmit]
     init) = []"
proof -
  let ?t = "js ''data is null''"
  let ?evs = "[ChangeInput (js ''x''), ChooseDetailed, ClickSubmit, ClickLogin, LoginBack,
               ClickSubmit]"
  have u: "userName init = []" by (simp add: init_def)
  have n: "\<forall>e\<in>set ?evs. \<not> is_auth e" by simp
  from form_disabled_before_login [of init ?t "js ''x''" ?evs] u n
  show ?thesis by blast
qed

subsection \<open>The risk bar\<close>

text \<open>
  C10. For a numeric \<open>risk_score\<close> the fill width and the marker position are both
  \<open>max(0, min(100, risk_score))\<close>, a finite number between 0 and 100, also when the score is
  outside that interval or infinite. The bar belongs to the result panel, which is the panel
  shown for such a result unless its \<open>error\<close> field is truthy.
\<close>

theorem risk_bar_clamped:
  assumes "jsprop r (js ''risk_score'') = Num x" and "x \<noteq> NaN"
  shows "bar_width r = Some (clamp_percent x) \<and>
         marker_left r = Some (clamp_percent x) \<and>
         (\<exists>p. clamp_percent x = Fin p \<and> 0 \<le> p \<and> p \<le> 100) \<and>
         (\<forall>v. x = Fin v \<longrightarrow> clamp_percent x = Fin (max 0 (min 100 v))) \<and>
         (\<not> truthy (jsprop r (js ''error'')) \<longrightarrow> result_panel r = ResultPanel r)"
proof -
  have p: "result_panel r = ResultPanel r" if "\<not> truthy (jsprop r (js ''error''))"
    using that assms(1) by (cases r) (auto simp: result_panel_def)
  show ?thesis
    using assms clamp_percent_range [of x] p
    by (simp add: bar_width_def marker_left_def clamp_percent_cases)
qed

text \<open>The theorem at the scores 150 and -20.\<close>

theorem risk_bar_clamped_witness:
  "bar_width (Obj [(js ''risk_score'', Num (Fin 150))]) = Some (Fin 100) \<and>
   marker_left (Obj [(js ''risk_score'', Num (Fin 150))]) = Some (Fin 100) \<and>
   bar_width (Obj [(js ''risk_score'', Num (Fin (- 20)))]) = Some (Fin 0) \<and>
   marker_left (Obj [(js ''risk_score'', Num (Fin (- 20)))]) = Some (Fin 0)"
proof -
  have 1: "jsprop (Obj [(js ''risk_score'', Num (Fin 150))]) (js ''risk_score'') = Num (Fin 150)"
    and 2: "jsprop (Obj [(js ''risk_score'', Num (Fin (- 20)))]) (js ''risk_score'') = Num (Fin (- 20))"
    by simp_all
  have n: "Fin 150 \<noteq> NaN" "Fin (- 20) \<noteq> NaN" by simp_all
  from risk_bar_clamped [OF 1 n(1)] risk_bar_clamped [OF 2 n(2)]
  show ?thesis by (simp add: clamp_percent_cases)
qed

end
